theory Spec2Isabelle
  imports Main "HOL-Library.Monad_Syntax"
begin

section \<open>The standard container the library augments\<close>

text \<open>
  \<^verbatim>\<open>std::forward_list<T>\<close> is a value type holding a finite sequence of elements, so an
  object of it is modelled by the HOL list of its elements, front first.  An iterator
  into a list is modelled by its position: the number of elements up to and including
  the one it denotes.  \<^verbatim>\<open>before_begin()\<close> is position \<open>0\<close>, the iterator to the
  \<open>k\<close>-th element is position \<open>k\<close>, and inserting after position \<open>k\<close> puts the new
  elements between the first \<open>k\<close> elements and the rest.
\<close>

type_synonym 'a forward_list = "'a list"

definition before_begin :: "'a forward_list \<Rightarrow> nat" where
  "before_begin l = 0"

text \<open>
  \<^verbatim>\<open>l.insert_after(pos, value)\<close>: the new contents of \<open>l\<close> and the iterator to the
  inserted element.
\<close>

definition insert_after :: "nat \<Rightarrow> 'a \<Rightarrow> 'a forward_list \<Rightarrow> 'a forward_list \<times> nat" where
  "insert_after pos v l = (take pos l @ [v] @ drop pos l, Suc pos)"

text \<open>
  \<^verbatim>\<open>l.insert_after(pos, first, last)\<close>, the range given by the list of its elements:
  the new contents of \<open>l\<close> and the iterator to the last inserted element, which is
  \<open>pos\<close> itself when the range is empty.
\<close>

definition insert_after_range ::
  "nat \<Rightarrow> 'a list \<Rightarrow> 'a forward_list \<Rightarrow> 'a forward_list \<times> nat" where
  "insert_after_range pos xs l = (take pos l @ xs @ drop pos l, pos + length xs)"

text \<open>
  \<^verbatim>\<open>l.splice_after(pos, std::move(other))\<close>: all elements of \<open>other\<close> are moved into
  \<open>l\<close> after \<open>pos\<close>, and \<open>other\<close> is left empty.  The result is the pair of the new
  contents of \<open>l\<close> and of \<open>other\<close>.
\<close>

definition splice_after ::
  "nat \<Rightarrow> 'a forward_list \<Rightarrow> 'a forward_list \<Rightarrow> 'a forward_list \<times> 'a forward_list" where
  "splice_after pos other l = (take pos l @ other @ drop pos l, [])"

text \<open>\<^verbatim>\<open>l.emplace_front(v)\<close>: the new contents of \<open>l\<close>.\<close>

definition emplace_front :: "'a \<Rightarrow> 'a forward_list \<Rightarrow> 'a forward_list" where
  "emplace_front v l = v # l"


section \<open>The monoid descriptor\<close>

text \<open>
  \<^verbatim>\<open>monoid<M>\<close> is a descriptor with the two static operations \<^verbatim>\<open>id()\<close> and
  \<^verbatim>\<open>append(a, b)\<close>.  A generic algorithm that is compiled against \<^verbatim>\<open>monoid<M>\<close>
  is modelled by a function that takes the descriptor as an argument.
\<close>

record 'm monoid =
  monoid_id :: 'm
  monoid_append :: "'m \<Rightarrow> 'm \<Rightarrow> 'm"


section \<open>Foldable: the deriving mixins\<close>

text \<open>
  \<^verbatim>\<open>deriving_foldl<F>::foldl(fn, z, f)\<close> for a constant \<open>f\<close>:
  \<^verbatim>\<open>for(auto& e : f) { z = fn(z, e); }  return z;\<close>
  The loop is the recursion over the elements still to visit; \<open>fn\<close> receives the
  accumulator first and the element second.
\<close>

primrec deriving_foldl :: "('u \<Rightarrow> 't \<Rightarrow> 'u) \<Rightarrow> 'u \<Rightarrow> 't forward_list \<Rightarrow> 'u" where
  "deriving_foldl fn z [] = z"
| "deriving_foldl fn z (e # f) = deriving_foldl fn (fn z e) f"

text \<open>
  \<^verbatim>\<open>deriving_foldMap<F>::foldMap(fn, f)\<close>:
  \<^verbatim>\<open>return foldable<F>::foldl(
       [fn](const T& a, const M& b) { return monoid<M>::append(fn(a), b); },
       monoid<M>::id(), f);\<close>
  The closure names its first parameter \<open>a\<close> with the element type \<open>T\<close> and its second
  parameter \<open>b\<close> with the monoid type \<open>M\<close>, and \<^verbatim>\<open>foldl\<close> calls it as \<^verbatim>\<open>fn(z, e)\<close>:
  \<open>a\<close> is bound to the accumulator and \<open>b\<close> to the element.  The call is well typed
  only where \<open>M\<close> converts to \<open>T\<close> and \<open>T\<close> to \<open>M\<close>; the model is the instantiation
  where the two types are the same and the conversions are the identity.
\<close>

definition deriving_foldMap :: "'m monoid \<Rightarrow> ('m \<Rightarrow> 'm) \<Rightarrow> 'm forward_list \<Rightarrow> 'm" where
  "deriving_foldMap M fn f =
     deriving_foldl (\<lambda>a b. monoid_append M (fn a) b) (monoid_id M) f"

text \<open>
  Modelled from the spec: \<^verbatim>\<open>id\<close>, the library's identity function object, is declared
  in the prelude header, which is not among the sources; the spec calls it the identity
  mapping function.
\<close>

definition ftl_id :: "'a \<Rightarrow> 'a" where
  "ftl_id x = x"

text \<open>\<^verbatim>\<open>deriving_fold<F>::fold(f)\<close>: \<^verbatim>\<open>return foldable<F>::foldMap(id, f);\<close>\<close>

definition deriving_fold :: "'m monoid \<Rightarrow> 'm forward_list \<Rightarrow> 'm" where
  "deriving_fold M f = deriving_foldMap M ftl_id f"


section \<open>The forward list instances\<close>

subsection \<open>Foldable\<close>

text \<open>
  \<^verbatim>\<open>_dtl::fwdfoldr(f, z, it, end)\<close>:
  \<^verbatim>\<open>if(it != end) { auto& x = *it; return f(x, fwdfoldr(f, z, ++it, end)); }  return z;\<close>
  The range from \<open>it\<close> to \<open>end\<close> is given by the list of its elements.
\<close>

fun fwdfoldr :: "('t \<Rightarrow> 'z \<Rightarrow> 'z) \<Rightarrow> 'z \<Rightarrow> 't list \<Rightarrow> 'z" where
  "fwdfoldr f z (x # it) = f x (fwdfoldr f z it)"
| "fwdfoldr f z [] = z"

text \<open>
  \<^verbatim>\<open>foldable<std::forward_list<T,A>>\<close> inherits \<^verbatim>\<open>foldl\<close>, \<^verbatim>\<open>fold\<close> and
  \<^verbatim>\<open>foldMap\<close> from the mixins and defines
  \<^verbatim>\<open>foldr(f, z, l)\<close> as \<^verbatim>\<open>fwdfoldr(f, z, l.cbegin(), l.cend())\<close>.
\<close>

definition foldable_foldl :: "('u \<Rightarrow> 't \<Rightarrow> 'u) \<Rightarrow> 'u \<Rightarrow> 't forward_list \<Rightarrow> 'u" where
  "foldable_foldl fn z f = deriving_foldl fn z f"

definition foldable_foldr :: "('t \<Rightarrow> 'u \<Rightarrow> 'u) \<Rightarrow> 'u \<Rightarrow> 't forward_list \<Rightarrow> 'u" where
  "foldable_foldr f z l = fwdfoldr f z l"

definition foldable_foldMap :: "'m monoid \<Rightarrow> ('m \<Rightarrow> 'm) \<Rightarrow> 'm forward_list \<Rightarrow> 'm" where
  "foldable_foldMap M fn f = deriving_foldMap M fn f"

definition foldable_fold :: "'m monoid \<Rightarrow> 'm forward_list \<Rightarrow> 'm" where
  "foldable_fold M f = deriving_fold M f"

text \<open>
  The function objects \<^verbatim>\<open>foldL\<close> and \<^verbatim>\<open>foldR\<close> behind the entry points
  \<^verbatim>\<open>ftl::foldl\<close> and \<^verbatim>\<open>ftl::foldr\<close> forward their three arguments to the instance,
  and so do the function object \<^verbatim>\<open>FoldMap\<close> behind \<^verbatim>\<open>ftl::foldMap\<close> and the free
  function \<^verbatim>\<open>ftl::fold\<close>.
\<close>

definition FoldMap :: "'m monoid \<Rightarrow> ('m \<Rightarrow> 'm) \<Rightarrow> 'm forward_list \<Rightarrow> 'm" where
  "FoldMap M fn f = foldable_foldMap M fn f"

definition ftl_fold :: "'m monoid \<Rightarrow> 'm forward_list \<Rightarrow> 'm" where
  "ftl_fold M f = foldable_fold M f"

definition foldL :: "('u \<Rightarrow> 't \<Rightarrow> 'u) \<Rightarrow> 'u \<Rightarrow> 't forward_list \<Rightarrow> 'u" where
  "foldL fn z f = foldable_foldl fn z f"

definition foldR :: "('t \<Rightarrow> 'u \<Rightarrow> 'u) \<Rightarrow> 'u \<Rightarrow> 't forward_list \<Rightarrow> 'u" where
  "foldR fn z f = foldable_foldr fn z f"

subsection \<open>Monoid\<close>

text \<open>
  \<^verbatim>\<open>monoid<std::forward_list<Ts...>>\<close>.  An overload whose parameters are all constant
  references is modelled by a function that returns, next to the returned list, the
  contents its arguments have when the call returns.  An overload that takes an rvalue
  is modelled by the list it returns.

  \<^verbatim>\<open>id()\<close>: \<^verbatim>\<open>return std::forward_list<Ts...>();\<close>
\<close>

definition forward_list_id :: "'a forward_list" where
  "forward_list_id = []"

text \<open>
  \<^verbatim>\<open>append(const forward_list& l1, const forward_list& l2)\<close>:
  \<^verbatim>\<open>forward_list rl(l2);
   rl.insert_after(rl.before_begin(), l1.begin(), l1.end());
   return rl;\<close>
\<close>

definition forward_list_append ::
  "'a forward_list \<Rightarrow> 'a forward_list
     \<Rightarrow> 'a forward_list \<times> 'a forward_list \<times> 'a forward_list" where
  "forward_list_append l1 l2 =
     (let rl = l2;
          (rl, it) = insert_after_range (before_begin rl) l1 rl
      in (rl, l1, l2))"

text \<open>
  \<^verbatim>\<open>append(forward_list&& l1, const forward_list& l2)\<close>:
  \<^verbatim>\<open>forward_list rl(l2);
   rl.splice_after(rl.before_begin(), std::move(l1));
   return rl;\<close>
\<close>

definition forward_list_append_rc :: "'a forward_list \<Rightarrow> 'a forward_list \<Rightarrow> 'a forward_list" where
  "forward_list_append_rc l1 l2 =
     (let rl = l2;
          (rl, l1) = splice_after (before_begin rl) l1 rl
      in rl)"

text \<open>
  \<^verbatim>\<open>append(const forward_list& l1, forward_list&& l2)\<close>:
  \<^verbatim>\<open>forward_list l(l1);
   l2.splice_after(l2.before_begin(), std::move(l));
   return l2;\<close>
\<close>

definition forward_list_append_cr :: "'a forward_list \<Rightarrow> 'a forward_list \<Rightarrow> 'a forward_list" where
  "forward_list_append_cr l1 l2 =
     (let l = l1;
          (l2, l) = splice_after (before_begin l2) l l2
      in l2)"

text \<open>
  \<^verbatim>\<open>append(forward_list&& l1, forward_list&& l2)\<close>:
  \<^verbatim>\<open>l2.splice_after(l2.before_begin(), std::move(l1));
   return l2;\<close>
\<close>

definition forward_list_append_rr :: "'a forward_list \<Rightarrow> 'a forward_list \<Rightarrow> 'a forward_list" where
  "forward_list_append_rr l1 l2 =
     (let (l2, l1) = splice_after (before_begin l2) l1 l2
      in l2)"

text \<open>
  The descriptor of the instance, for the generic algorithms.  The four overloads of
  \<^verbatim>\<open>append\<close> are one operation of the descriptor; it is given by the overload on
  constant references.
\<close>

definition monoid_forward_list :: "'a forward_list monoid" where
  "monoid_forward_list =
     \<lparr>monoid_id = forward_list_id,
      monoid_append = (\<lambda>l1 l2. fst (forward_list_append l1 l2))\<rparr>"

subsection \<open>Monad\<close>

text \<open>
  \<^verbatim>\<open>monad<std::forward_list<T,A>>::pure(const T& t)\<close> and \<^verbatim>\<open>pure(T&& t)\<close>:
  \<^verbatim>\<open>forward_list<T> l;  l.emplace_front(t);  return l;\<close>
  The second overload passes \<^verbatim>\<open>std::move(t)\<close> to \<^verbatim>\<open>emplace_front\<close>.
\<close>

definition monad_pure :: "'t \<Rightarrow> 't forward_list" where
  "monad_pure t = (let l = [] in emplace_front t l)"

definition monad_pure_rv :: "'t \<Rightarrow> 't forward_list" where
  "monad_pure_rv t = (let l = [] in emplace_front t l)"

text \<open>
  \<^verbatim>\<open>map(F&& f, const forward_list<T>& l)\<close>:
  \<^verbatim>\<open>forward_list<U> rl;
   auto it = rl.before_begin();
   for(const auto& e : l) { it = rl.insert_after(it, f(e)); }
   return rl;\<close>
  The loop runs over the elements of \<open>l\<close> still to visit and carries \<open>rl\<close> and \<open>it\<close>.
\<close>

primrec map_loop :: "('t \<Rightarrow> 'u) \<Rightarrow> 't list \<Rightarrow> 'u forward_list \<times> nat \<Rightarrow> 'u forward_list \<times> nat" where
  "map_loop f [] s = s"
| "map_loop f (e # es) s = map_loop f es (insert_after (snd s) (f e) (fst s))"

definition monad_map :: "('t \<Rightarrow> 'u) \<Rightarrow> 't forward_list \<Rightarrow> 'u forward_list \<times> 't forward_list" where
  "monad_map f l =
     (let rl = [];
          it = before_begin rl;
          (rl, it) = map_loop f l (rl, it)
      in (rl, l))"

text \<open>
  \<^verbatim>\<open>map(F&& f, forward_list<T>&& l)\<close> for an \<open>f\<close> that changes the element type: the
  same loop, with \<^verbatim>\<open>f(std::move(e))\<close> for \<^verbatim>\<open>f(e)\<close>.
\<close>

definition monad_map_rv :: "('t \<Rightarrow> 'u) \<Rightarrow> 't forward_list \<Rightarrow> 'u forward_list" where
  "monad_map_rv f l =
     (let rl = [];
          it = before_begin rl;
          (rl, it) = map_loop f l (rl, it)
      in rl)"

text \<open>
  \<^verbatim>\<open>map(F&& f, forward_list<T>&& l)\<close> for an \<open>f\<close> that keeps the element type, the
  map without copies:
  \<^verbatim>\<open>auto rl = std::move(l);
   for(auto& e : rl) { e = f(e); }
   return rl;\<close>
  The loop assigns to the elements of \<open>rl\<close> in place; \<open>i\<close> is the number of elements
  already visited.
\<close>

function inplace_loop :: "('t \<Rightarrow> 't) \<Rightarrow> nat \<Rightarrow> 't forward_list \<Rightarrow> 't forward_list" where
  "inplace_loop f i rl =
     (if i < length rl then inplace_loop f (Suc i) (rl[i := f (rl ! i)]) else rl)"
  by pat_completeness auto
termination
  by (relation "measure (\<lambda>(f, i, rl). length rl - i)") auto

declare inplace_loop.simps [simp del]

definition monad_map_inplace :: "('t \<Rightarrow> 't) \<Rightarrow> 't forward_list \<Rightarrow> 't forward_list" where
  "monad_map_inplace f l = (let rl = l in inplace_loop f 0 rl)"

text \<open>
  Modelled from the spec: \<^verbatim>\<open>f % l\<close>, the operator form of the functor's map, is
  declared in the functor header, which is not among the sources.  The spec describes
  the nested list that \<^verbatim>\<open>concatMap\<close> flattens as \<^verbatim>\<open>map(f, l)\<close>: for a forward list
  the operator is the \<^verbatim>\<open>map\<close> of the monad instance above, the overload chosen by
  the value category of \<open>l\<close> and by whether \<open>f\<close> changes the element type.
\<close>

definition fmap :: "('t \<Rightarrow> 'u) \<Rightarrow> 't forward_list \<Rightarrow> 'u forward_list \<times> 't forward_list" where
  "fmap f l = monad_map f l"

definition fmap_rv :: "('t \<Rightarrow> 'u) \<Rightarrow> 't forward_list \<Rightarrow> 'u forward_list" where
  "fmap_rv f l = monad_map_rv f l"

definition fmap_inplace :: "('t \<Rightarrow> 't) \<Rightarrow> 't forward_list \<Rightarrow> 't forward_list" where
  "fmap_inplace f l = monad_map_inplace f l"

text \<open>
  \<^verbatim>\<open>concatMap(F&& f, const std::forward_list<T,A>& l)\<close>:
  \<^verbatim>\<open>std::forward_list<U,Au> result;
   auto nested = std::forward<F>(f) % l;
   auto it = result.before_begin();
   for(auto& el : nested) {
     it = result.insert_after(it, std::make_move_iterator(el.begin()),
                                  std::make_move_iterator(el.end()));
   }
   return result;\<close>
  The loop runs over the sublists of \<open>nested\<close> still to visit and carries \<open>result\<close>
  and \<open>it\<close>.
\<close>

primrec concat_loop :: "'u list list \<Rightarrow> 'u forward_list \<times> nat \<Rightarrow> 'u forward_list \<times> nat" where
  "concat_loop [] s = s"
| "concat_loop (el # els) s = concat_loop els (insert_after_range (snd s) el (fst s))"

definition concatMap ::
  "('t \<Rightarrow> 'u forward_list) \<Rightarrow> 't forward_list \<Rightarrow> 'u forward_list \<times> 't forward_list" where
  "concatMap f l =
     (let result = [];
          (nested, l) = fmap f l;
          it = before_begin result;
          (result, it) = concat_loop nested (result, it)
      in (result, l))"

text \<open>
  \<^verbatim>\<open>concatMap(F&& f, std::forward_list<T,A>&& l)\<close>:
  \<^verbatim>\<open>auto nested = std::forward<F>(f) % std::move(l);
   std::forward_list<U,Au> result;\<close>
  followed by the same loop.  \<open>f\<close> maps an element to a forward list; where the element
  type is that same list type the map without copies is the overload chosen for
  \<^verbatim>\<open>%\<close>, and the other overload for an rvalue everywhere else.
\<close>

definition concatMap_rv :: "('t \<Rightarrow> 'u forward_list) \<Rightarrow> 't forward_list \<Rightarrow> 'u forward_list" where
  "concatMap_rv f l =
     (let nested = fmap_rv f l;
          result = [];
          it = before_begin result;
          (result, it) = concat_loop nested (result, it)
      in result)"

definition concatMap_rv_same ::
  "('u forward_list \<Rightarrow> 'u forward_list) \<Rightarrow> 'u forward_list forward_list \<Rightarrow> 'u forward_list" where
  "concatMap_rv_same f l =
     (let nested = fmap_inplace f l;
          result = [];
          it = before_begin result;
          (result, it) = concat_loop nested (result, it)
      in result)"

text \<open>
  \<^verbatim>\<open>bind(const forward_list<T>& l, F&& f)\<close>: \<^verbatim>\<open>return concatMap(std::forward<F>(f), l);\<close>
  and \<^verbatim>\<open>bind(forward_list<T>&& l, F&& f)\<close>:
  \<^verbatim>\<open>return concatMap(std::forward<F>(f), std::move(l));\<close>
\<close>

definition monad_bind ::
  "'t forward_list \<Rightarrow> ('t \<Rightarrow> 'u forward_list) \<Rightarrow> 'u forward_list \<times> 't forward_list" where
  "monad_bind l f = concatMap f l"

definition monad_bind_rv :: "'t forward_list \<Rightarrow> ('t \<Rightarrow> 'u forward_list) \<Rightarrow> 'u forward_list" where
  "monad_bind_rv l f = concatMap_rv f l"

definition monad_bind_rv_same ::
  "'u forward_list forward_list \<Rightarrow> ('u forward_list \<Rightarrow> 'u forward_list) \<Rightarrow> 'u forward_list" where
  "monad_bind_rv_same l f = concatMap_rv_same f l"

subsection \<open>The documented reading of \<^verbatim>\<open>foldMap\<close>\<close>

text \<open>
  The specification's reading of \<^verbatim>\<open>foldMap\<close>, for comparison with the mixin: every
  element is mapped through \<open>fn\<close> and the images are combined from the left, starting
  from the identity, \<open>append (\<dots> (append (append id (fn x\<^sub>1)) (fn x\<^sub>2)) \<dots>) (fn x\<^sub>n)\<close>.
\<close>

definition foldMap_spec :: "'m monoid \<Rightarrow> ('t \<Rightarrow> 'm) \<Rightarrow> 't forward_list \<Rightarrow> 'm" where
  "foldMap_spec M fn l =
     deriving_foldl (\<lambda>z e. monoid_append M z (fn e)) (monoid_id M) l"


section \<open>The calls on constant references, on objects in a store\<close>

text \<open>
  The definitions above take a list as the value it holds.  To say what a call does to
  the objects it is given, the three entry points whose list parameters are all
  constant references are given here a second time, as calls on objects:
  \<^item> a store is the list of the objects that exist, and the address of an object is
    its index in the store;
  \<^item> a reference parameter is an address, and two of them may be the same address;
  \<^item> constructing a list (a local variable, a copy) puts a new object behind the
    objects of the store, so that its address is none of theirs;
  \<^item> a member function called on a list reads the object at the list's address and
    writes the new contents back to that address;
  \<^item> a loop over a list reads the list from the store again at every step;
  \<^item> the call returns the address of the list it returns, and the store it leaves.

  The three entry points handle lists of up to three element types, so an object is a
  list of one of three types: \<open>'t\<close> is the element type of the argument lists, \<open>'u\<close>
  the element type of the list that \<^verbatim>\<open>map\<close> builds, and \<open>'v\<close> the element type of the
  list that \<^verbatim>\<open>concatMap\<close> returns (its nested list is a list of \<open>'v\<close> lists, so it is
  used with \<open>'u\<close> the type of \<open>'v\<close> lists).
\<close>

datatype ('t, 'u, 'v) object =
    OfT "'t forward_list"
  | OfU "'u forward_list"
  | OfV "'v forward_list"

type_synonym ('t, 'u, 'v) store = "('t, 'u, 'v) object list"

text \<open>Constructing an object: its address and the new store.\<close>

definition new_object ::
  "('t, 'u, 'v) object \<Rightarrow> ('t, 'u, 'v) store \<Rightarrow> nat \<times> ('t, 'u, 'v) store" where
  "new_object ob s = (length s, s @ [ob])"

text \<open>
  Reading the list at an address.  There is no result where the address is not one of
  the store, or the object there is a list of another element type; the type system
  keeps such a call from being compiled, and the entry points below return \<open>None\<close>
  for it.
\<close>

definition load_T :: "('t, 'u, 'v) store \<Rightarrow> nat \<Rightarrow> 't forward_list option" where
  "load_T s a = (if a < length s then (case s ! a of OfT xs \<Rightarrow> Some xs | _ \<Rightarrow> None) else None)"

definition load_U :: "('t, 'u, 'v) store \<Rightarrow> nat \<Rightarrow> 'u forward_list option" where
  "load_U s a = (if a < length s then (case s ! a of OfU xs \<Rightarrow> Some xs | _ \<Rightarrow> None) else None)"

definition load_V :: "('t, 'u, 'v) store \<Rightarrow> nat \<Rightarrow> 'v forward_list option" where
  "load_V s a = (if a < length s then (case s ! a of OfV xs \<Rightarrow> Some xs | _ \<Rightarrow> None) else None)"

text \<open>
  \<^verbatim>\<open>a.insert_after(pos, first, last)\<close> and \<^verbatim>\<open>a.insert_after(pos, v)\<close> for the list at
  address \<open>a\<close>: the returned iterator and the new store, in which the object at \<open>a\<close>
  has the new contents.
\<close>

definition insert_after_range_T ::
  "nat \<Rightarrow> nat \<Rightarrow> 't list \<Rightarrow> ('t, 'u, 'v) store \<Rightarrow> (nat \<times> ('t, 'u, 'v) store) option" where
  "insert_after_range_T a pos xs s = do {
     zs \<leftarrow> load_T s a;
     let (zs, it) = insert_after_range pos xs zs;
     Some (it, s[a := OfT zs])
   }"

definition insert_after_U ::
  "nat \<Rightarrow> nat \<Rightarrow> 'u \<Rightarrow> ('t, 'u, 'v) store \<Rightarrow> (nat \<times> ('t, 'u, 'v) store) option" where
  "insert_after_U a pos v s = do {
     zs \<leftarrow> load_U s a;
     let (zs, it) = insert_after pos v zs;
     Some (it, s[a := OfU zs])
   }"

definition insert_after_range_V ::
  "nat \<Rightarrow> nat \<Rightarrow> 'v list \<Rightarrow> ('t, 'u, 'v) store \<Rightarrow> (nat \<times> ('t, 'u, 'v) store) option" where
  "insert_after_range_V a pos xs s = do {
     zs \<leftarrow> load_V s a;
     let (zs, it) = insert_after_range pos xs zs;
     Some (it, s[a := OfV zs])
   }"

text \<open>
  \<^verbatim>\<open>append(const forward_list& l1, const forward_list& l2)\<close>:
  \<^verbatim>\<open>forward_list rl(l2);
   rl.insert_after(rl.before_begin(), l1.begin(), l1.end());
   return rl;\<close>
\<close>

definition append_st ::
  "nat \<Rightarrow> nat \<Rightarrow> ('t, 'u, 'v) store \<Rightarrow> (nat \<times> ('t, 'u, 'v) store) option" where
  "append_st l1 l2 s = do {
     ys \<leftarrow> load_T s l2;
     let (rl, s) = new_object (OfT ys) s;
     zs \<leftarrow> load_T s rl;
     xs \<leftarrow> load_T s l1;
     (it, s) \<leftarrow> insert_after_range_T rl (before_begin zs) xs s;
     Some (rl, s)
   }"

text \<open>
  \<^verbatim>\<open>map(F&& f, const forward_list<T>& l)\<close>:
  \<^verbatim>\<open>forward_list<U> rl;
   auto it = rl.before_begin();
   for(const auto& e : l) { it = rl.insert_after(it, f(e)); }
   return rl;\<close>
  In the loop \<open>i\<close> is the number of elements of \<open>l\<close> already visited.  The loop ends
  when \<open>i\<close> reaches the end of the list then at address \<open>l\<close>; the function that models
  it has no result where it would not end.
\<close>

partial_function (option) map_loop_st ::
  "('t \<Rightarrow> 'u) \<Rightarrow> nat \<Rightarrow> nat \<Rightarrow> nat \<Rightarrow> nat \<Rightarrow> ('t, 'u, 'v) store
     \<Rightarrow> (nat \<times> ('t, 'u, 'v) store) option" where
  "map_loop_st f l i rl it s = do {
     xs \<leftarrow> load_T s l;
     if i < length xs then do {
       (it, s) \<leftarrow> insert_after_U rl it (f (xs ! i)) s;
       map_loop_st f l (Suc i) rl it s
     } else Some (it, s)
   }"

declare map_loop_st.simps [code]

definition map_st ::
  "('t \<Rightarrow> 'u) \<Rightarrow> nat \<Rightarrow> ('t, 'u, 'v) store \<Rightarrow> (nat \<times> ('t, 'u, 'v) store) option" where
  "map_st f l s = do {
     let (rl, s) = new_object (OfU []) s;
     zs \<leftarrow> load_U s rl;
     let it = before_begin zs;
     (it, s) \<leftarrow> map_loop_st f l 0 rl it s;
     Some (rl, s)
   }"

text \<open>
  Modelled from the spec: \<^verbatim>\<open>f % l\<close>, the operator form of the functor's map, is
  declared in the functor header, which is not among the sources.  The spec describes
  the nested list that \<^verbatim>\<open>concatMap\<close> flattens as \<^verbatim>\<open>map(f, l)\<close>; for a constant
  forward list \<open>l\<close> that is the \<^verbatim>\<open>map\<close> of the monad instance on a constant
  reference.
\<close>

definition fmap_st ::
  "('t \<Rightarrow> 'u) \<Rightarrow> nat \<Rightarrow> ('t, 'u, 'v) store \<Rightarrow> (nat \<times> ('t, 'u, 'v) store) option" where
  "fmap_st f l s = map_st f l s"

text \<open>
  \<^verbatim>\<open>concatMap(F&& f, const std::forward_list<T,A>& l)\<close>:
  \<^verbatim>\<open>std::forward_list<U,Au> result;
   auto nested = std::forward<F>(f) % l;
   auto it = result.before_begin();
   for(auto& el : nested) {
     it = result.insert_after(it, std::make_move_iterator(el.begin()),
                                  std::make_move_iterator(el.end()));
   }
   return result;\<close>
  In the loop \<open>j\<close> is the number of sublists of \<open>nested\<close> already visited.  The elements
  of a sublist are moved into \<open>result\<close>; the sublist, an object local to the call, is
  left in the store with the elements it had.
\<close>

partial_function (option) concat_loop_st ::
  "nat \<Rightarrow> nat \<Rightarrow> nat \<Rightarrow> nat \<Rightarrow> ('t, 'v forward_list, 'v) store
     \<Rightarrow> (nat \<times> ('t, 'v forward_list, 'v) store) option" where
  "concat_loop_st nested j result it s = do {
     els \<leftarrow> load_U s nested;
     if j < length els then do {
       (it, s) \<leftarrow> insert_after_range_V result it (els ! j) s;
       concat_loop_st nested (Suc j) result it s
     } else Some (it, s)
   }"

declare concat_loop_st.simps [code]

definition concatMap_st ::
  "('t \<Rightarrow> 'v forward_list) \<Rightarrow> nat \<Rightarrow> ('t, 'v forward_list, 'v) store
     \<Rightarrow> (nat \<times> ('t, 'v forward_list, 'v) store) option" where
  "concatMap_st f l s = do {
     let (result, s) = new_object (OfV []) s;
     (nested, s) \<leftarrow> fmap_st f l s;
     zs \<leftarrow> load_V s result;
     let it = before_begin zs;
     (it, s) \<leftarrow> concat_loop_st nested 0 result it s;
     Some (result, s)
   }"


section \<open>What the container operations and the loops compute\<close>

lemma insert_after_end: "insert_after (length l) v l = (l @ [v], Suc (length l))"
  by (simp add: insert_after_def)

lemma insert_after_range_end:
  "insert_after_range (length l) xs l = (l @ xs, length l + length xs)"
  by (simp add: insert_after_range_def)

text \<open>
  The loop of \<^verbatim>\<open>map\<close> keeps \<open>it\<close> at the last element of \<open>rl\<close>, so every insertion
  is at the end.
\<close>

lemma map_loop_end:
  "map_loop f es (rl, length rl) = (rl @ map f es, length rl + length es)"
proof (induction es arbitrary: rl)
  case Nil
  show ?case by simp
next
  case (Cons e es)
  have "map_loop f (e # es) (rl, length rl) = map_loop f es (rl @ [f e], length (rl @ [f e]))"
    by (simp add: insert_after_end)
  also have "\<dots> = ((rl @ [f e]) @ map f es, length (rl @ [f e]) + length es)"
    by (rule Cons.IH)
  finally show ?case by simp
qed

lemma monad_map_eq: "monad_map f l = (map f l, l)"
  using map_loop_end [of f l "[]"] by (simp add: monad_map_def before_begin_def)

lemma monad_map_rv_eq: "monad_map_rv f l = map f l"
  using map_loop_end [of f l "[]"] by (simp add: monad_map_rv_def before_begin_def)

text \<open>
  The loop of the map without copies has rewritten the first \<open>i\<close> elements and rewrites
  the others.
\<close>

lemma inplace_loop_eq:
  "i \<le> length rl \<Longrightarrow> inplace_loop f i rl = take i rl @ map f (drop i rl)"
proof (induction f i rl rule: inplace_loop.induct)
  case (1 f i rl)
  show ?case
  proof (cases "i < length rl")
    case True
    let ?rl = "rl[i := f (rl ! i)]"
    have "inplace_loop f i rl = inplace_loop f (Suc i) ?rl"
      using True by (subst inplace_loop.simps) simp
    also have "\<dots> = take (Suc i) ?rl @ map f (drop (Suc i) ?rl)"
      using True by (intro "1.IH") simp_all
    also have "\<dots> = take i rl @ [f (rl ! i)] @ map f (drop (Suc i) rl)"
      using True by (simp add: take_Suc_conv_app_nth)
    also have "\<dots> = take i rl @ map f (drop i rl)"
      using True by (simp add: Cons_nth_drop_Suc [symmetric])
    finally show ?thesis .
  next
    case False
    with "1.prems" have "i = length rl" by simp
    moreover have "inplace_loop f i rl = rl"
      using False by (subst inplace_loop.simps) simp
    ultimately show ?thesis by simp
  qed
qed

lemma monad_map_inplace_eq: "monad_map_inplace f l = map f l"
  by (simp add: monad_map_inplace_def inplace_loop_eq)

text \<open>
  The loop of \<^verbatim>\<open>concatMap\<close> keeps \<open>it\<close> at the last element of \<open>result\<close>, also across
  an empty sublist, so every sublist is inserted at the end.
\<close>

lemma concat_loop_end:
  "concat_loop els (r, length r) = (r @ concat els, length r + length (concat els))"
proof (induction els arbitrary: r)
  case Nil
  show ?case by simp
next
  case (Cons el els)
  have "concat_loop (el # els) (r, length r) = concat_loop els (r @ el, length (r @ el))"
    by (simp add: insert_after_range_end)
  also have "\<dots> = ((r @ el) @ concat els, length (r @ el) + length (concat els))"
    by (rule Cons.IH)
  finally show ?case by simp
qed

lemma concatMap_eq: "concatMap f l = (concat (map f l), l)"
  using concat_loop_end [of "map f l" "[]"]
  by (simp add: concatMap_def fmap_def monad_map_eq before_begin_def)

lemma concatMap_rv_eq: "concatMap_rv f l = concat (map f l)"
  using concat_loop_end [of "map f l" "[]"]
  by (simp add: concatMap_rv_def fmap_rv_def monad_map_rv_eq before_begin_def)

lemma concatMap_rv_same_eq: "concatMap_rv_same f l = concat (map f l)"
  using concat_loop_end [of "map f l" "[]"]
  by (simp add: concatMap_rv_same_def fmap_inplace_def monad_map_inplace_eq before_begin_def)

lemma forward_list_append_eq: "forward_list_append l1 l2 = (l1 @ l2, l1, l2)"
  by (simp add: forward_list_append_def insert_after_range_def before_begin_def)

lemma forward_list_append_rc_eq: "forward_list_append_rc l1 l2 = l1 @ l2"
  by (simp add: forward_list_append_rc_def splice_after_def before_begin_def)

lemma forward_list_append_cr_eq: "forward_list_append_cr l1 l2 = l1 @ l2"
  by (simp add: forward_list_append_cr_def splice_after_def before_begin_def)

lemma forward_list_append_rr_eq: "forward_list_append_rr l1 l2 = l1 @ l2"
  by (simp add: forward_list_append_rr_def splice_after_def before_begin_def)

text \<open>
  One more element at the end of the list: the left fold applies \<open>fn\<close> once more, to
  the value folded so far and the new element.  For the mixin's \<^verbatim>\<open>foldMap\<close> the
  mapping function then goes to the value folded so far; in the documented reading it
  goes to the new element.
\<close>

lemma deriving_foldl_snoc:
  "deriving_foldl fn z (f @ [e]) = fn (deriving_foldl fn z f) e"
  by (induction f arbitrary: z) simp_all

lemma deriving_foldMap_snoc:
  "deriving_foldMap M fn (f @ [e]) = monoid_append M (fn (deriving_foldMap M fn f)) e"
  by (simp add: deriving_foldMap_def deriving_foldl_snoc)

lemma foldMap_spec_snoc:
  "foldMap_spec M fn (l @ [e]) = monoid_append M (foldMap_spec M fn l) (fn e)"
  by (simp add: foldMap_spec_def deriving_foldl_snoc)

lemma concat_singletons: "concat (map (\<lambda>x. [x]) l) = l"
  by (induction l) simp_all

lemma deriving_foldl_append:
  "deriving_foldl (\<lambda>a b. a @ b) z ls = z @ concat ls"
  by (induction ls arbitrary: z) simp_all


section \<open>What the calls on a store compute\<close>

lemma load_T_iff: "load_T s a = Some xs \<longleftrightarrow> a < length s \<and> s ! a = OfT xs"
  by (auto simp: load_T_def split: object.splits)

lemma load_U_iff: "load_U s a = Some xs \<longleftrightarrow> a < length s \<and> s ! a = OfU xs"
  by (auto simp: load_U_def split: object.splits)

lemma load_V_iff: "load_V s a = Some xs \<longleftrightarrow> a < length s \<and> s ! a = OfV xs"
  by (auto simp: load_V_def split: object.splits)

lemma append_st_run:
  assumes "load_T s l1 = Some xs" and "load_T s l2 = Some ys"
  shows "append_st l1 l2 s = Some (length s, s @ [OfT (xs @ ys)])"
proof -
  let ?s = "s @ [OfT ys]"
  from assms have "l1 < length s" and "s ! l1 = OfT xs"
    by (simp_all add: load_T_iff)
  then have l1: "load_T ?s l1 = Some xs"
    by (simp add: load_T_iff nth_append)
  have rl: "load_T ?s (length s) = Some ys"
    by (simp add: load_T_iff)
  have "insert_after_range_T (length s) 0 xs ?s = Some (length xs, s @ [OfT (xs @ ys)])"
    by (simp add: insert_after_range_T_def rl insert_after_range_def)
  with assms(2) l1 rl show ?thesis
    by (simp add: append_st_def new_object_def before_begin_def)
qed

lemma map_loop_st_run:
  assumes "load_T s l = Some xs" and "load_U s rl = Some zs" and "i \<le> length xs"
  shows "map_loop_st f l i rl (length zs) s
           = Some (length zs + (length xs - i), s[rl := OfU (zs @ map f (drop i xs))])"
  using assms
proof (induction "length xs - i" arbitrary: i s zs)
  case 0
  then have "i = length xs"
    by simp
  moreover from "0.prems"(2) have "s[rl := OfU zs] = s"
    by (simp add: load_U_iff list_update_same_conv)
  ultimately show ?case
    using "0.prems"(1) by (subst map_loop_st.simps) simp
next
  case (Suc n)
  then have lt: "i < length xs"
    by simp
  from Suc.prems have l: "l < length s" "s ! l = OfT xs" and r: "rl < length s" "s ! rl = OfU zs"
    by (simp_all add: load_T_iff load_U_iff)
  then have ne: "l \<noteq> rl"
    by auto
  let ?zs = "zs @ [f (xs ! i)]"
  let ?s = "s[rl := OfU ?zs]"
  have step: "insert_after_U rl (length zs) (f (xs ! i)) s = Some (length ?zs, ?s)"
    using Suc.prems(2) by (simp add: insert_after_U_def insert_after_end)
  have "map_loop_st f l i rl (length zs) s = map_loop_st f l (Suc i) rl (length ?zs) ?s"
    using Suc.prems(1) lt step by (subst map_loop_st.simps) simp
  also have "\<dots> = Some (length ?zs + (length xs - Suc i),
                       ?s[rl := OfU (?zs @ map f (drop (Suc i) xs))])"
  proof (rule Suc.hyps(1))
    show "n = length xs - Suc i"
      using Suc.hyps(2) by simp
    show "load_T ?s l = Some xs"
      using l ne by (simp add: load_T_iff)
    show "load_U ?s rl = Some ?zs"
      using r by (simp add: load_U_iff)
    show "Suc i \<le> length xs"
      using lt by simp
  qed
  also have "\<dots> = Some (length zs + (length xs - i), s[rl := OfU (zs @ map f (drop i xs))])"
    using lt by (simp add: Cons_nth_drop_Suc [symmetric])
  finally show ?case .
qed

lemma map_st_run:
  assumes "load_T s l = Some xs"
  shows "map_st f l s = Some (length s, s @ [OfU (map f xs)])"
proof -
  let ?s = "s @ [OfU []]"
  from assms have "l < length s" and "s ! l = OfT xs"
    by (simp_all add: load_T_iff)
  then have l: "load_T ?s l = Some xs"
    by (simp add: load_T_iff nth_append)
  have rl: "load_U ?s (length s) = Some []"
    by (simp add: load_U_iff)
  from map_loop_st_run [OF l rl, where i = 0 and f = f]
  have "map_loop_st f l 0 (length s) 0 ?s = Some (length xs, s @ [OfU (map f xs)])"
    by simp
  with rl show ?thesis
    by (simp add: map_st_def new_object_def before_begin_def)
qed

lemma concat_loop_st_run:
  assumes "load_U s nested = Some els" and "load_V s result = Some zs" and "j \<le> length els"
  shows "concat_loop_st nested j result (length zs) s
           = Some (length zs + length (concat (drop j els)),
                   s[result := OfV (zs @ concat (drop j els))])"
  using assms
proof (induction "length els - j" arbitrary: j s zs)
  case 0
  then have "j = length els"
    by simp
  moreover from "0.prems"(2) have "s[result := OfV zs] = s"
    by (simp add: load_V_iff list_update_same_conv)
  ultimately show ?case
    using "0.prems"(1) by (subst concat_loop_st.simps) simp
next
  case (Suc n)
  then have lt: "j < length els"
    by simp
  from Suc.prems have l: "nested < length s" "s ! nested = OfU els"
    and r: "result < length s" "s ! result = OfV zs"
    by (simp_all add: load_U_iff load_V_iff)
  then have ne: "nested \<noteq> result"
    by auto
  let ?zs = "zs @ els ! j"
  let ?s = "s[result := OfV ?zs]"
  have step: "insert_after_range_V result (length zs) (els ! j) s = Some (length ?zs, ?s)"
    using Suc.prems(2) by (simp add: insert_after_range_V_def insert_after_range_end)
  have "concat_loop_st nested j result (length zs) s
          = concat_loop_st nested (Suc j) result (length ?zs) ?s"
    using Suc.prems(1) lt step by (subst concat_loop_st.simps) simp
  also have "\<dots> = Some (length ?zs + length (concat (drop (Suc j) els)),
                       ?s[result := OfV (?zs @ concat (drop (Suc j) els))])"
  proof (rule Suc.hyps(1))
    show "n = length els - Suc j"
      using Suc.hyps(2) by simp
    show "load_U ?s nested = Some els"
      using l ne by (simp add: load_U_iff)
    show "load_V ?s result = Some ?zs"
      using r by (simp add: load_V_iff)
    show "Suc j \<le> length els"
      using lt by simp
  qed
  also have "\<dots> = Some (length zs + length (concat (drop j els)),
                       s[result := OfV (zs @ concat (drop j els))])"
    using lt by (simp add: Cons_nth_drop_Suc [symmetric])
  finally show ?case .
qed

lemma concatMap_st_run:
  assumes "load_T s l = Some xs"
  shows "concatMap_st f l s
           = Some (length s, s @ [OfV (concat (map f xs)), OfU (map f xs)])"
proof -
  let ?s1 = "s @ [OfV []]"
  let ?s2 = "?s1 @ [OfU (map f xs)]"
  from assms have "l < length s" and "s ! l = OfT xs"
    by (simp_all add: load_T_iff)
  then have "load_T ?s1 l = Some xs"
    by (simp add: load_T_iff nth_append)
  then have m: "fmap_st f l ?s1 = Some (Suc (length s), ?s2)"
    by (simp add: fmap_st_def map_st_run)
  have n: "load_U ?s2 (Suc (length s)) = Some (map f xs)"
    by (simp add: load_U_iff nth_append)
  have r: "load_V ?s2 (length s) = Some []"
    by (simp add: load_V_iff nth_append)
  from concat_loop_st_run [OF n r, where j = 0]
  have "concat_loop_st (Suc (length s)) 0 (length s) 0 ?s2
          = Some (length (concat (map f xs)),
                  s @ [OfV (concat (map f xs)), OfU (map f xs)])"
    by (simp add: list_update_append)
  with m r show ?thesis
    by (simp add: concatMap_st_def new_object_def before_begin_def)
qed


section \<open>Folds\<close>

text \<open>
  Claim C2.  Folding the list \<open>[4, 8, 5]\<close> with subtraction and the zero value \<open>3\<close> gives
  \<open>-14\<close> with \<^verbatim>\<open>foldl\<close>, which computes \<open>((3 - 4) - 8) - 5\<close>, and \<open>-2\<close> with
  \<^verbatim>\<open>foldr\<close>, which computes \<open>4 - (8 - (5 - 3))\<close>, through the entry points as well as
  through the forward list instance.
\<close>

theorem fold_subtraction_example:
  "foldL (\<lambda>x y. x - y) (3::int) [4, 8, 5] = -14
   \<and> foldR (\<lambda>x y. x - y) (3::int) [4, 8, 5] = -2
   \<and> foldable_foldl (\<lambda>x y. x - y) (3::int) [4, 8, 5] = ((3 - 4) - 8) - 5
   \<and> foldable_foldr (\<lambda>x y. x - y) (3::int) [4, 8, 5] = 4 - (8 - (5 - 3))"
  by (simp add: foldL_def foldR_def foldable_foldl_def foldable_foldr_def)

text \<open>
  Claim C1.  \<^verbatim>\<open>foldMap(fn, l)\<close> is documented to map every element through \<open>fn\<close> and to
  combine the images with \<^verbatim>\<open>append\<close>, starting from \<^verbatim>\<open>id()\<close>.  The mixin applies
  \<open>fn\<close> to the accumulator instead and appends the element unmapped.  On the list
  \<open>[[2]]\<close> of lists of integers, with the function that returns \<open>[1]\<close> for every
  argument, the mixin returns \<open>[1, 2]\<close> where the documented reading gives \<open>[1]\<close>; on
  \<open>[[1, 2], [3, 4]]\<close> with list reversal the mixin returns \<open>[2, 1, 3, 4]\<close> where the
  documented reading gives \<open>[2, 1, 4, 3]\<close>.
\<close>

theorem foldMap_maps_accumulator:
  "foldable_foldMap monoid_forward_list (\<lambda>x. [1]) [[2::int]] = [1, 2]
   \<and> foldMap_spec monoid_forward_list (\<lambda>x. [1]) [[2::int]] = [1]
   \<and> foldable_foldMap monoid_forward_list rev [[1, 2], [3, 4::int]] = [2, 1, 3, 4]
   \<and> foldMap_spec monoid_forward_list rev [[1, 2], [3, 4::int]] = [2, 1, 4, 3]"
  by (simp add: foldable_foldMap_def deriving_foldMap_def foldMap_spec_def
        monoid_forward_list_def forward_list_id_def forward_list_append_eq)

text \<open>
  Claim C6.  For a list \<open>L\<close> whose elements are of a monoid, \<^verbatim>\<open>fold(L)\<close> is
  \<^verbatim>\<open>foldMap(id, L)\<close>, and it combines the elements of \<open>L\<close> themselves from the left
  with the monoid's \<^verbatim>\<open>append\<close>, starting from \<^verbatim>\<open>id()\<close>.  For a list of forward
  lists that is the concatenation of the elements.
\<close>

theorem fold_is_foldMap_id:
  "foldable_fold M L = foldable_foldMap M ftl_id L
   \<and> ftl_fold M L = FoldMap M ftl_id L
   \<and> foldable_fold M L = deriving_foldl (monoid_append M) (monoid_id M) L
   \<and> foldable_fold monoid_forward_list Ls = concat Ls"
proof -
  have a: "foldable_fold M L = foldable_foldMap M ftl_id L" for M :: "'c monoid" and L
    by (simp add: foldable_fold_def deriving_fold_def foldable_foldMap_def)
  have b: "foldable_fold M L = deriving_foldl (monoid_append M) (monoid_id M) L"
    for M :: "'c monoid" and L
    by (simp add: foldable_fold_def deriving_fold_def deriving_foldMap_def ftl_id_def)
  have c: "foldable_fold monoid_forward_list Ls = concat Ls"
    by (simp add: b monoid_forward_list_def forward_list_id_def forward_list_append_eq
          deriving_foldl_append)
  have d: "ftl_fold M L = FoldMap M ftl_id L"
    by (simp add: ftl_fold_def FoldMap_def a)
  from a b c d show ?thesis by blast
qed


section \<open>The list monoid\<close>


text \<open>
  Claim C5.  \<^verbatim>\<open>append\<close> is associative:
  \<^verbatim>\<open>append(append(A, B), C) == append(A, append(B, C))\<close> for all lists \<open>A\<close>, \<open>B\<close>
  and \<open>C\<close>.
\<close>

theorem monoid_associativity:
  "fst (forward_list_append (fst (forward_list_append A B)) C)
     = fst (forward_list_append A (fst (forward_list_append B C)))"
  by (simp add: forward_list_append_eq)


section \<open>The list monad\<close>

text \<open>
  Claim C9.  \<^verbatim>\<open>pure(x)\<close> returns the list whose only element is \<open>x\<close>, in the
  overload that copies \<open>x\<close> and in the overload that moves it.
\<close>

theorem pure_singleton:
  "monad_pure x = [x] \<and> monad_pure_rv x = [x]"
  by (simp add: monad_pure_def monad_pure_rv_def emplace_front_def)

text \<open>
  Claim C3.  \<^verbatim>\<open>bind(l, f)\<close> returns what \<^verbatim>\<open>concatMap(f, l)\<close> returns, and that is the
  concatenation \<open>f x\<^sub>1 @ f x\<^sub>2 @ \<dots> @ f x\<^sub>n\<close> of the sublists in the order of the
  elements of \<open>l\<close>, which is the flattening of \<^verbatim>\<open>map(f, l)\<close>; \<open>f\<close> is any function,
  so its sublists may be empty or of different lengths.  The same holds of the
  overloads for an rvalue \<open>l\<close>.
\<close>

theorem bind_is_concatMap:
  "fst (monad_bind l f) = fst (concatMap f l)
   \<and> fst (concatMap f l) = concat (map f l)
   \<and> fst (concatMap f l) = concat (fst (monad_map f l))
   \<and> monad_bind_rv l f = concatMap_rv f l
   \<and> concatMap_rv f l = concat (map f l)"
  by (simp add: monad_bind_def monad_bind_rv_def concatMap_eq concatMap_rv_eq monad_map_eq)

text \<open>
  Claim C8.  Right identity of the monad: \<^verbatim>\<open>bind(L, pure) == L\<close> for every list \<open>L\<close>,
  for either overload of \<^verbatim>\<open>pure\<close> and of \<^verbatim>\<open>bind\<close>.
\<close>

theorem monad_right_identity:
  "fst (monad_bind L monad_pure) = L
   \<and> fst (monad_bind L monad_pure_rv) = L
   \<and> monad_bind_rv L monad_pure = L
   \<and> monad_bind_rv L monad_pure_rv = L"
proof -
  have p: "monad_pure = (\<lambda>x::'a. [x])"
    by (simp add: fun_eq_iff monad_pure_def emplace_front_def)
  have q: "monad_pure_rv = (\<lambda>x::'a. [x])"
    by (simp add: fun_eq_iff monad_pure_rv_def emplace_front_def)
  show ?thesis
    unfolding p q
    by (simp add: monad_bind_def monad_bind_rv_def concatMap_eq concatMap_rv_eq
          concat_singletons)
qed


section \<open>Overloads for rvalues and for constant references\<close>

text \<open>
  Claim C7.  The overloads that take an rvalue return lists with the contents the
  copying overloads return: for \<^verbatim>\<open>append\<close> with the first, the second or both
  arguments moved; for \<^verbatim>\<open>map\<close> on a moved list, with a function that changes the
  element type and with one that keeps it (the map in place); and for \<^verbatim>\<open>bind\<close> on a
  moved list, whichever of the two maps it goes through.
\<close>

theorem move_overloads_agree:
  "forward_list_append_rc A B = fst (forward_list_append A B)
   \<and> forward_list_append_cr A B = fst (forward_list_append A B)
   \<and> forward_list_append_rr A B = fst (forward_list_append A B)
   \<and> monad_map_rv f L = fst (monad_map f L)
   \<and> monad_map_inplace g L' = fst (monad_map g L')
   \<and> monad_bind_rv L h = fst (monad_bind L h)
   \<and> monad_bind_rv_same L'' k = fst (monad_bind L'' k)"
  by (simp add: forward_list_append_eq forward_list_append_rc_eq forward_list_append_cr_eq
        forward_list_append_rr_eq monad_map_eq monad_map_rv_eq monad_map_inplace_eq
        monad_bind_def monad_bind_rv_def monad_bind_rv_same_def
        concatMap_eq concatMap_rv_eq concatMap_rv_same_eq)

text \<open>
  Claim C10.  The entry points on constant references do not change the lists they are
  given, and the list they return is a new one.  For \<^verbatim>\<open>append(l1, l2)\<close> called with
  the addresses of two lists of the store, which may be the same list: the call
  returns; afterwards \<open>l1\<close> and \<open>l2\<close> hold the elements they held before, and so does
  every object the store had before the call; the returned list is at an address the
  store did not have before the call, and it holds the elements the definition on
  values gives.  The same holds of \<^verbatim>\<open>map(f, l)\<close> and of \<^verbatim>\<open>concatMap(f, l)\<close> for the
  address \<open>l\<close> of a list of the store.
\<close>

theorem const_calls_preserve_store:
  "(load_T s l1 = Some xs \<and> load_T s l2 = Some ys \<longrightarrow>
      (\<exists>rl s'. append_st l1 l2 s = Some (rl, s')
         \<and> load_T s' l1 = Some xs \<and> load_T s' l2 = Some ys
         \<and> take (length s) s' = s
         \<and> length s \<le> rl
         \<and> load_T s' rl = Some (fst (forward_list_append xs ys))))
   \<and> (load_T sm l = Some zs \<longrightarrow>
      (\<exists>rl s'. map_st f l sm = Some (rl, s')
         \<and> load_T s' l = Some zs
         \<and> take (length sm) s' = sm
         \<and> length sm \<le> rl
         \<and> load_U s' rl = Some (fst (monad_map f zs))))
   \<and> (load_T sc l' = Some ws \<longrightarrow>
      (\<exists>result s'. concatMap_st g l' sc = Some (result, s')
         \<and> load_T s' l' = Some ws
         \<and> take (length sc) s' = sc
         \<and> length sc \<le> result
         \<and> load_V s' result = Some (fst (concatMap g ws))))"
proof (intro conjI impI)
  assume a: "load_T s l1 = Some xs \<and> load_T s l2 = Some ys"
  let ?s' = "s @ [OfT (xs @ ys)]"
  from a have "append_st l1 l2 s = Some (length s, ?s')"
    by (simp add: append_st_run)
  moreover from a have "load_T ?s' l1 = Some xs" and "load_T ?s' l2 = Some ys"
    by (simp_all add: load_T_iff nth_append)
  moreover have "take (length s) ?s' = s"
    by simp
  moreover have "load_T ?s' (length s) = Some (fst (forward_list_append xs ys))"
    by (simp add: load_T_iff forward_list_append_eq)
  ultimately show "\<exists>rl s'. append_st l1 l2 s = Some (rl, s')
         \<and> load_T s' l1 = Some xs \<and> load_T s' l2 = Some ys
         \<and> take (length s) s' = s
         \<and> length s \<le> rl
         \<and> load_T s' rl = Some (fst (forward_list_append xs ys))"
    by blast
next
  assume a: "load_T sm l = Some zs"
  let ?s' = "sm @ [OfU (map f zs)]"
  from a have "map_st f l sm = Some (length sm, ?s')"
    by (simp add: map_st_run)
  moreover from a have "load_T ?s' l = Some zs"
    by (simp add: load_T_iff nth_append)
  moreover have "take (length sm) ?s' = sm"
    by simp
  moreover have "load_U ?s' (length sm) = Some (fst (monad_map f zs))"
    by (simp add: load_U_iff monad_map_eq)
  ultimately show "\<exists>rl s'. map_st f l sm = Some (rl, s')
         \<and> load_T s' l = Some zs
         \<and> take (length sm) s' = sm
         \<and> length sm \<le> rl
         \<and> load_U s' rl = Some (fst (monad_map f zs))"
    by blast
next
  assume a: "load_T sc l' = Some ws"
  let ?s' = "sc @ [OfV (concat (map g ws)), OfU (map g ws)]"
  from a have "concatMap_st g l' sc = Some (length sc, ?s')"
    by (simp add: concatMap_st_run)
  moreover from a have "load_T ?s' l' = Some ws"
    by (simp add: load_T_iff nth_append)
  moreover have "take (length sc) ?s' = sc"
    by simp
  moreover have "load_V ?s' (length sc) = Some (fst (concatMap g ws))"
    by (simp add: load_V_iff concatMap_eq)
  ultimately show "\<exists>result s'. concatMap_st g l' sc = Some (result, s')
         \<and> load_T s' l' = Some ws
         \<and> take (length sc) s' = sc
         \<and> length sc \<le> result
         \<and> load_V s' result = Some (fst (concatMap g ws))"
    by blast
qed

theorem const_calls_preserve_store_witness:
  "load_T [OfT [1], OfT [2, 3] :: (int, int, int) object] 0 = Some [1]
   \<and> load_T [OfT [1], OfT [2, 3] :: (int, int, int) object] 1 = Some [2, 3]
   \<and> (\<exists>rl s'. append_st 0 1 [OfT [1], OfT [2, 3] :: (int, int, int) object] = Some (rl, s')
         \<and> load_T s' 0 = Some [1] \<and> load_T s' 1 = Some [2, 3]
         \<and> take 2 s' = [OfT [1], OfT [2, 3]]
         \<and> 2 \<le> rl
         \<and> load_T s' rl = Some [1, 2, 3])
   \<and> (\<exists>rl s'. map_st (\<lambda>x. x + 1) 1 [OfT [1], OfT [2, 3] :: (int, int, int) object] = Some (rl, s')
         \<and> load_T s' 1 = Some [2, 3]
         \<and> take 2 s' = [OfT [1], OfT [2, 3]]
         \<and> 2 \<le> rl
         \<and> load_U s' rl = Some [3, 4])
   \<and> (\<exists>result s'. concatMap_st (\<lambda>x. replicate (nat x) x) 0
                       [OfT [2, 0, 3] :: (int, int list, int) object] = Some (result, s')
         \<and> load_T s' 0 = Some [2, 0, 3]
         \<and> take 1 s' = [OfT [2, 0, 3]]
         \<and> 1 \<le> result
         \<and> load_V s' result = Some [2, 2, 3, 3, 3])"
  using const_calls_preserve_store
    [where s = "[OfT [1], OfT [2, 3] :: (int, int, int) object]"
       and ?l1.0 = 0 and xs = "[1]" and ?l2.0 = 1 and ys = "[2, 3]"
       and sm = "[OfT [1], OfT [2, 3] :: (int, int, int) object]"
       and l = 1 and zs = "[2, 3]" and f = "\<lambda>x. x + 1"
       and sc = "[OfT [2, 0, 3] :: (int, int list, int) object]"
       and l' = 0 and ws = "[2, 0, 3]" and g = "\<lambda>x. replicate (nat x) x"]
  by (simp add: load_T_def forward_list_append_eq monad_map_eq concatMap_eq
        numeral_2_eq_2 numeral_3_eq_3)

end
